theory Spec2Isabelle
  imports Main "HOL-Library.AList"
begin

section \<open>Name/tag codec\<close>

text \<open>
  The sink folds a backend name and its tags into one flat registry key
  (\<open>encodeInfluxDBName\<close>) and unfolds the key again at flush time
  (\<open>decodeInfluxDBName\<close>). Both functions are called from \<open>influxdb.go\<close> but are
  defined in a file of the package that is not part of the sources at hand.
\<close>

text \<open>Modelled from the spec: the delimiter character of the codec that separates the
  name and the tags from each other inside a registry key. The spec speaks of "the
  delimiter used by the codec" without naming it; the comma of the backend's line
  protocol is taken.\<close>
definition tagSep :: char where
  "tagSep = CHR '',''"

text \<open>Modelled from the spec: the delimiter character of the codec that separates a
  tag key from its tag value; the equals sign of the backend's line protocol is taken.\<close>
definition kvSep :: char where
  "kvSep = CHR ''=''"

text \<open>Content is delimiter-free when it holds neither delimiter character.\<close>
definition delimiterFree :: "string \<Rightarrow> bool" where
  "delimiterFree s = (tagSep \<notin> set s \<and> kvSep \<notin> set s)"

text \<open>Splitting at every occurrence of a separator character, as Go's
  \<open>strings.Split\<close> does for a one-character separator: the empty string splits into
  one empty piece.\<close>
fun splitOn :: "char \<Rightarrow> string \<Rightarrow> string list" where
  "splitOn c [] = [[]]"
| "splitOn c (x # xs) =
     (if x = c then [] # splitOn c xs
      else (case splitOn c xs of [] \<Rightarrow> [[x]] | y # ys \<Rightarrow> (x # y) # ys))"

text \<open>Modelled from the spec: one tag of an encoded key, the tag delimiter followed by
  key, key/value delimiter and value.\<close>
definition encodeTag :: "string \<times> string \<Rightarrow> string" where
  "encodeTag kv = tagSep # fst kv @ kvSep # snd kv"

text \<open>Modelled from the spec: \<open>encodeInfluxDBName\<close>, missing from the sources,
  "encode(name, tagKeys, tagValues) -> key": a reversible encoding of the name and the
  pairing of \<open>tagKeys\<close> with \<open>tagValues\<close> into a single string. The tags follow the
  name in the order given (the spec notes that the order is not normalised). The spec
  defines the encoding for sequences of equal length only; the pairing stops at the
  shorter one.\<close>
definition encodeInfluxDBName :: "string \<Rightarrow> string list \<Rightarrow> string list \<Rightarrow> string" where
  "encodeInfluxDBName name tagKeys tagValues =
     name @ concat (map encodeTag (zip tagKeys tagValues))"

text \<open>Modelled from the spec: one piece of a key after the name, split at its first
  key/value delimiter; a piece without that delimiter is no tag.\<close>
definition decodeTag :: "string \<Rightarrow> (string \<times> string) option" where
  "decodeTag part =
     (if kvSep \<in> set part
      then Some (takeWhile (\<lambda>c. c \<noteq> kvSep) part, tl (dropWhile (\<lambda>c. c \<noteq> kvSep) part))
      else None)"

text \<open>Modelled from the spec: the tag map under construction receives one more tag; a
  later tag replaces an earlier one of the same key ("last write wins").\<close>
definition addTag :: "(string \<rightharpoonup> string) \<Rightarrow> string \<Rightarrow> (string \<rightharpoonup> string)" where
  "addTag tags part = (case decodeTag part of None \<Rightarrow> tags | Some (k, v) \<Rightarrow> tags(k \<mapsto> v))"

text \<open>Modelled from the spec: \<open>decodeInfluxDBName\<close>, missing from the sources,
  "decode(key) -> (name, tags map)": the piece before the first tag delimiter is the
  name, every further piece is one tag.\<close>
definition decodeInfluxDBName :: "string \<Rightarrow> string \<times> (string \<rightharpoonup> string)" where
  "decodeInfluxDBName key =
     (case splitOn tagSep key of
        [] \<Rightarrow> (key, Map.empty)
      | name # parts \<Rightarrow> (name, foldl addTag Map.empty parts))"

section \<open>Data model of the sink\<close>

text \<open>A Go \<open>error\<close> is kept as its message; \<open>None\<close> of \<open>err option\<close> is \<open>nil\<close>.
  A \<open>time.Duration\<close> and a \<open>time.Time\<close> are integers.\<close>
type_synonym err = string
type_synonym duration = int
type_synonym time = nat

text \<open>What stops a goroutine: the unchecked type assertion on the result of
  \<open>GetOrRegister\<close>, a method call on the \<open>nil\<close> client, and \<open>time.NewTicker\<close> with a
  duration that is not positive.\<close>
datatype panic = TypeAssertion string | NilClient | NonPositiveTicker

text \<open>A float64 is only stored and forwarded by the sink, never computed with; it is
  kept as its bit pattern.\<close>
datatype float64 = Float64Bits nat

text \<open>The metric objects a registry of go-metrics can hold. \<open>InfluxDBCounter\<close>,
  \<open>InfluxDBTimer\<close> and \<open>InfluxDBGauge\<close> are the wrapper structs of the sink
  (\<open>influxDBCounter{metrics.Counter}\<close> and so on), the only ones its accessors register;
  the others are the library's own types, which the runtime registry holds. A counter
  or gauge carries its value, a timer or histogram the values recorded so far.\<close>
datatype metric =
    InfluxDBCounter int
  | InfluxDBTimer "int list"
  | InfluxDBGauge int
  | Counter int
  | Gauge int
  | GaugeFloat64 float64
  | Timer "int list"
  | Histogram "int list"
  | OtherMetric

text \<open>A field value of a point. The statistics of a timer or histogram snapshot are
  computed by go-metrics from its reservoir sample, in floating point; \<open>Stat f xs\<close>
  stands for the statistic \<open>f\<close> of the snapshot of the recorded values \<open>xs\<close>.\<close>
datatype fieldValue = Int64 int | Float64 float64 | Stat string "int list"

text \<open>Go maps whose iteration the code relies on are association lists with distinct
  keys; the order of a list stands for the (unspecified) iteration order of the map.
  The tag map of a point is only ever looked up, and is a map.\<close>
type_synonym fields = "(string \<times> fieldValue) list"
type_synonym registry = "(string \<times> metric) list"
type_synonym tags = "string \<rightharpoonup> string"

datatype point = Point (pointName: string) (pointTags: tags) (pointFields: fields)
  (pointTime: time)

datatype tlsConfig = TLSConfig string

text \<open>The transport client, with the configuration it was built from:
  \<open>client.HTTPConfig{Addr, TLSConfig, Username, Password}\<close> (\<open>TLSConfig\<close> is \<open>None\<close> when
  the field is left out) or \<open>client.UDPConfig{Addr}\<close>.\<close>
datatype client =
    HTTPClient string "tlsConfig option" string string
  | UDPClient string

datatype BatchPointsConfig = BatchPointsConfig string string string string

text \<open>The result of \<open>url.Parse\<close>: the fields the sink reads, and \<open>u.String()\<close>.\<close>
record url =
  Scheme :: string
  Host :: string
  urlString :: string

record btlsConfig =
  Enabled :: bool
  tlsSettings :: string

record InfluxDBInclude =
  Runtime :: string
  DebugGC :: string

record InfluxDBConfig =
  URL :: string
  DB :: string
  TLS :: btlsConfig
  Interval :: string
  Password :: string
  PingInterval :: string
  Precision :: string
  Timeout :: string
  Username :: string
  RetentionPolicy :: string
  WriteConsistency :: string
  Include :: InfluxDBInclude
  PathMapping :: string
  Tags :: tags

text \<open>The path mapping of the package (\<open>*pathMapping\<close>, built by \<open>newPathMapping\<close>) is
  not part of the sources at hand; its two methods are parameters of the model.\<close>
record pathMapping =
  mapPathWithTags :: "string \<Rightarrow> string \<times> string list \<times> string list"
  mapPathNoTags :: "string \<Rightarrow> string"

datatype logEntry = Errorf string | Warnf string | Debugf string

text \<open>The calls made on a transport client, in order.\<close>
datatype call =
    Write client BatchPointsConfig "point list"
  | Ping client duration
  | CloseClient client

text \<open>The struct \<open>InfluxDB\<close>. \<open>client\<close> is \<open>None\<close> while the field is \<open>nil\<close>;
  \<open>ctxDone\<close> says whether the context \<open>ctx\<close> has been cancelled. Three fields are the
  bookkeeping of the model: \<open>logged\<close> holds what has been passed to the logger, \<open>wire\<close>
  the calls made on transport clients, \<open>flushes\<close> how often \<open>publishRegistry\<close> has been
  entered.\<close>
record InfluxDB =
  client :: "client option"
  batchConfig :: BatchPointsConfig
  interval :: duration
  pingInterval :: duration
  timeout :: duration
  ctxDone :: bool
  pathMapping :: pathMapping
  registry :: registry
  runtimeRegistry :: registry
  config :: InfluxDBConfig
  logged :: "logEntry list"
  wire :: "call list"
  flushes :: nat

text \<open>What the world outside the sink answers: the standard library, the client
  library and the network. An operation of the sink takes the answers that hold while
  it runs. A constructor of the client library is given by its failure alone
  (\<open>None\<close>: it succeeds).\<close>
record env =
  parseDuration :: "string \<Rightarrow> err + duration"
  newPathMapping :: "string \<Rightarrow> err + pathMapping"
  registerRuntimeMemStats :: "registry \<Rightarrow> registry"
  registerDebugGCStats :: "registry \<Rightarrow> registry"
  urlParse :: "string \<Rightarrow> err + url"
  tlsGet :: "btlsConfig \<Rightarrow> err + tlsConfig"
  newHTTPClient :: "client \<Rightarrow> err option"
  newUDPClient :: "client \<Rightarrow> err option"
  newBatchPoints :: "BatchPointsConfig \<Rightarrow> err option"
  newPoint :: "string \<Rightarrow> tags \<Rightarrow> fields \<Rightarrow> time \<Rightarrow> err option"
  clientWrite :: "client \<Rightarrow> BatchPointsConfig \<Rightarrow> point list \<Rightarrow> err option"
  clientPing :: "client \<Rightarrow> duration \<Rightarrow> err option"
  now :: time

section \<open>Building the transport client\<close>

definition toCMName :: "InfluxDB \<Rightarrow> string \<Rightarrow> string \<times> string list \<times> string list" where
  "toCMName i dotSepName = mapPathWithTags (pathMapping i) dotSepName"

text \<open>The tail of \<open>makeClient\<close>: the client is assigned only when the constructor
  returned no error.\<close>
definition assignClient :: "err option \<Rightarrow> client \<Rightarrow> InfluxDB \<Rightarrow> err option \<times> InfluxDB" where
  "assignClient e c i = (case e of None \<Rightarrow> (None, i\<lparr>client := Some c\<rparr>) | Some m \<Rightarrow> (Some m, i))"

definition makeClient :: "env \<Rightarrow> InfluxDB \<Rightarrow> err option \<times> InfluxDB" where
  "makeClient x i =
     (case urlParse x (URL (config i)) of
        Inl e \<Rightarrow> (Some (''problem parsing url: '' @ e), i)
      | Inr u \<Rightarrow>
          if Scheme u = ''https'' then
            (case (if Enabled (TLS (config i)) then tlsGet x (TLS (config i))
                   else Inr (TLSConfig [])) of
               Inl e \<Rightarrow> (Some e, i)
             | Inr tlsConf \<Rightarrow>
                 (let c = HTTPClient (urlString u) (Some tlsConf) (Username (config i))
                            (Password (config i))
                  in assignClient (newHTTPClient x c) c i))
          else if Scheme u = ''http'' then
            (let c = HTTPClient (urlString u) None (Username (config i)) (Password (config i))
             in assignClient (newHTTPClient x c) c i)
          else if Scheme u = ''udp'' then
            (let c = UDPClient (Host u) in assignClient (newUDPClient x c) c i)
          else
            (Some (''protocol needs to be http, https or udp and is '' @ Scheme u), i))"

section \<open>Flushing the registries\<close>

definition sampleFields :: "int list \<Rightarrow> fields" where
  "sampleFields xs =
     [(''count'', Stat ''Count'' xs), (''min'', Stat ''Min'' xs), (''max'', Stat ''Max'' xs),
      (''mean'', Stat ''Mean'' xs), (''stddev'', Stat ''StdDev'' xs),
      (''p50'', Stat ''P50'' xs), (''p75'', Stat ''P75'' xs), (''p95'', Stat ''P95'' xs),
      (''p99'', Stat ''P99'' xs), (''p999'', Stat ''P999'' xs)]"

definition rateFields :: "int list \<Rightarrow> fields" where
  "rateFields xs =
     [(''1m.rate'', Stat ''Rate1'' xs), (''5m.rate'', Stat ''Rate5'' xs),
      (''15m.rate'', Stat ''Rate15'' xs), (''mean.rate'', Stat ''RateMean'' xs)]"

text \<open>The type switch of \<open>getMetricValues\<close>; a wrapper of the sink is matched by the
  interface it embeds. A metric of no listed type leaves the map \<open>nil\<close>.\<close>
fun getMetricValues :: "metric \<Rightarrow> fields" where
  "getMetricValues (InfluxDBCounter n) = [(''count'', Int64 n)]"
| "getMetricValues (Counter n) = [(''count'', Int64 n)]"
| "getMetricValues (InfluxDBGauge n) = [(''value'', Int64 n)]"
| "getMetricValues (Gauge n) = [(''value'', Int64 n)]"
| "getMetricValues (GaugeFloat64 f) = [(''value'', Float64 f)]"
| "getMetricValues (InfluxDBTimer xs) = sampleFields xs @ rateFields xs"
| "getMetricValues (Timer xs) = sampleFields xs @ rateFields xs"
| "getMetricValues (Histogram xs) = sampleFields xs"
| "getMetricValues OtherMetric = []"

text \<open>\<open>getAllMetrics\<close>: one map from names to field maps, filled from the registry and
  then from the runtime registry under the tag-free mapped names; a name assigned
  again replaces the earlier entry.\<close>
definition getAllMetrics :: "InfluxDB \<Rightarrow> (string \<times> fields) list" where
  "getAllMetrics i =
     (let data = foldl (\<lambda>d (name, m). AList.update name (getMetricValues m) d) []
                   (registry i)
      in foldl (\<lambda>d (name, m).
                  AList.update (mapPathNoTags (pathMapping i) name) (getMetricValues m) d)
           data (runtimeRegistry i))"

text \<open>The body of the loop of \<open>publishRegistry\<close> for one entry: the decoded tags, then
  the global tags over them, then \<open>client.NewPoint\<close>. \<open>Inl\<close> is the entry skipped, with
  what is logged.\<close>
definition makePoint :: "env \<Rightarrow> InfluxDB \<Rightarrow> string \<times> fields \<Rightarrow> logEntry + point" where
  "makePoint x i kv =
     (let (name, normalTags) = decodeInfluxDBName (fst kv);
          tags = normalTags ++ Tags (config i)
      in case newPoint x name tags (snd kv) (now x) of
           Some e \<Rightarrow> Inl (Debugf (''problem formatting metrics on '' @ name @ '': '' @ e))
         | None \<Rightarrow> Inr (Point name tags (snd kv) (now x)))"

text \<open>Of the entries of one flush, in order: what was logged for the entries skipped,
  and the points added to the batch.\<close>
fun skipped :: "(logEntry + point) list \<Rightarrow> logEntry list" where
  "skipped [] = []"
| "skipped (Inl l # rs) = l # skipped rs"
| "skipped (Inr p # rs) = skipped rs"

fun added :: "(logEntry + point) list \<Rightarrow> point list" where
  "added [] = []"
| "added (Inl l # rs) = added rs"
| "added (Inr p # rs) = p # added rs"

definition publishRegistry :: "env \<Rightarrow> InfluxDB \<Rightarrow> panic + (err option \<times> InfluxDB)" where
  "publishRegistry x i0 =
     (let i = i0\<lparr>flushes := Suc (flushes i0)\<rparr> in
      case newBatchPoints x (batchConfig i) of
        Some e \<Rightarrow> Inr (Some (''problem creating batch points for influx: '' @ e), i)
      | None \<Rightarrow>
          (let made = map (makePoint x i) (getAllMetrics i);
               points = added made;
               i1 = i\<lparr>logged := logged i @ skipped made\<rparr>
           in case client i1 of
                None \<Rightarrow> Inl NilClient
              | Some c \<Rightarrow>
                  Inr (clientWrite x c (batchConfig i1) points,
                       i1\<lparr>wire := wire i1 @ [Write c (batchConfig i1) points]\<rparr>)))"

section \<open>The background loop and shutdown\<close>

text \<open>The function stored in the field \<open>cancel\<close>: it cancels \<open>ctx\<close>.\<close>
definition cancel :: "InfluxDB \<Rightarrow> InfluxDB" where
  "cancel i = i\<lparr>ctxDone := True\<rparr>"

text \<open>What the loop and \<open>Close\<close> do with the result of a flush: an error is logged
  and dropped.\<close>
definition logFlush :: "err option \<Rightarrow> InfluxDB \<Rightarrow> InfluxDB" where
  "logFlush r i =
     (case r of
        None \<Rightarrow> i
      | Some e \<Rightarrow> i\<lparr>logged := logged i @ [Errorf (''failed to send metrics data: '' @ e)]\<rparr>)"

text \<open>The case \<open><-ticker.C\<close> of the loop.\<close>
definition onTicker :: "env \<Rightarrow> InfluxDB \<Rightarrow> panic + InfluxDB" where
  "onTicker x i =
     (case publishRegistry x i of
        Inl p \<Rightarrow> Inl p
      | Inr (r, i1) \<Rightarrow> Inr (logFlush r i1))"

text \<open>The case \<open><-pingTicker.C\<close> of the loop.\<close>
definition onPingTicker :: "env \<Rightarrow> InfluxDB \<Rightarrow> panic + InfluxDB" where
  "onPingTicker x i =
     (case client i of
        None \<Rightarrow> Inl NilClient
      | Some c \<Rightarrow>
          (let i1 = i\<lparr>wire := wire i @ [Ping c (timeout i)]\<rparr> in
           case clientPing x c (timeout i) of
             None \<Rightarrow> Inr i1
           | Some e \<Rightarrow>
               (let i2 = i1\<lparr>logged := logged i1 @
                            [Warnf (''unable to ping influx endpoint: '' @ e)]\<rparr>;
                    (r, i3) = makeClient x i2
                in case r of
                     None \<Rightarrow> Inr i3
                   | Some e' \<Rightarrow>
                       Inr (i3\<lparr>logged := logged i3 @
                              [Errorf (''unable to recreate client: '' @ e')]\<rparr>))))"

text \<open>The channels the \<open>select\<close> of the loop waits on. A schedule lists, for each
  round of the loop, the case the \<open>select\<close> takes and what the world answers during
  that round.\<close>
datatype event = CtxDone | TickerC | PingTickerC

text \<open>The \<open>for\<close>/\<open>select\<close> of \<open>loop\<close> run along a schedule. The result is \<open>True\<close> when
  the goroutine has returned, \<open>False\<close> when it waits in the \<open>select\<close> at the end of the
  schedule. The case \<open><-i.ctx.Done()\<close> can be taken only once the context is cancelled;
  until then the \<open>select\<close> keeps waiting for another channel.\<close>
fun loopSelect :: "(event \<times> env) list \<Rightarrow> InfluxDB \<Rightarrow> panic + (bool \<times> InfluxDB)" where
  "loopSelect [] i = Inr (False, i)"
| "loopSelect ((CtxDone, x) # rest) i =
     (if ctxDone i then Inr (True, i) else loopSelect rest i)"
| "loopSelect ((TickerC, x) # rest) i =
     (case onTicker x i of Inl p \<Rightarrow> Inl p | Inr i1 \<Rightarrow> loopSelect rest i1)"
| "loopSelect ((PingTickerC, x) # rest) i =
     (case onPingTicker x i of Inl p \<Rightarrow> Inl p | Inr i1 \<Rightarrow> loopSelect rest i1)"

text \<open>\<open>loop\<close>: \<open>time.NewTicker\<close> panics on a duration that is not positive.\<close>
definition loop :: "(event \<times> env) list \<Rightarrow> InfluxDB \<Rightarrow> panic + (bool \<times> InfluxDB)" where
  "loop schedule i =
     (if interval i \<le> 0 \<or> pingInterval i \<le> 0 then Inl NonPositiveTicker
      else loopSelect schedule i)"

text \<open>\<open>Close\<close>; the first component of the result is the error returned.\<close>
definition Close :: "env \<Rightarrow> InfluxDB \<Rightarrow> panic + (err option \<times> InfluxDB)" where
  "Close x i =
     (case publishRegistry x i of
        Inl p \<Rightarrow> Inl p
      | Inr (r, i1) \<Rightarrow>
          (let i2 = logFlush r i1 in
           case client i2 of
             None \<Rightarrow> Inl NilClient
           | Some c \<Rightarrow> Inr (None, i2\<lparr>wire := wire i2 @ [CloseClient c]\<rparr>)))"

section \<open>Construction\<close>

text \<open>One of the two optional captures of \<open>NewInfluxDB\<close>: when the duration string is
  not empty the metrics are registered, then the string is parsed. (The capturing
  goroutine only updates the metrics registered here.)\<close>
definition includeStats ::
  "env \<Rightarrow> string \<Rightarrow> (registry \<Rightarrow> registry) \<Rightarrow> registry \<Rightarrow> err + registry" where
  "includeStats x d register r =
     (if d \<noteq> [] then
        (case parseDuration x d of
           Inl e \<Rightarrow> Inl (''failed to parse interval: '' @ e)
         | Inr _ \<Rightarrow> Inr (register r))
      else Inr r)"

text \<open>\<open>NewInfluxDB\<close>, up to the start of the loop goroutine. The options \<open>opts\<close> see
  the new object through the interface \<open>Type\<close> only and are left out; the struct is put
  together once the parsed values are at hand, the checks keep their order.\<close>
definition NewInfluxDB :: "env \<Rightarrow> InfluxDBConfig \<Rightarrow> err + InfluxDB" where
  "NewInfluxDB x conf =
     (case includeStats x (Runtime (Include conf)) (registerRuntimeMemStats x) [] of
        Inl e \<Rightarrow> Inl e
      | Inr r1 \<Rightarrow>
     (case includeStats x (DebugGC (Include conf)) (registerDebugGCStats x) r1 of
        Inl e \<Rightarrow> Inl e
      | Inr r2 \<Rightarrow>
     (case newPathMapping x (PathMapping conf) of
        Inl e \<Rightarrow> Inl (''failed to init path mapping: '' @ e)
      | Inr pm \<Rightarrow>
     (case parseDuration x (Interval conf) of
        Inl e \<Rightarrow> Inl (''failed to parse interval: '' @ e)
      | Inr iv \<Rightarrow>
     (case parseDuration x (PingInterval conf) of
        Inl e \<Rightarrow> Inl (''failed to parse ping interval: '' @ e)
      | Inr pv \<Rightarrow>
     (case parseDuration x (Timeout conf) of
        Inl e \<Rightarrow> Inl (''failed to parse timeout interval: '' @ e)
      | Inr tv \<Rightarrow>
     (case makeClient x
             \<lparr>client = None, batchConfig = BatchPointsConfig [] [] [] [],
              interval = iv, pingInterval = pv, timeout = tv, ctxDone = False,
              pathMapping = pm, registry = [], runtimeRegistry = r2, config = conf,
              logged = [], wire = [], flushes = 0\<rparr> of
        (Some e, _) \<Rightarrow> Inl e
      | (None, i) \<Rightarrow>
          Inr (i\<lparr>batchConfig := BatchPointsConfig (Precision conf) (DB conf)
                     (RetentionPolicy conf) (WriteConsistency conf)\<rparr>))))))))"

section \<open>Accessors\<close>

text \<open>Modelled from the spec: \<open>GetOrRegister\<close> of the metric registry (the library
  go-metrics, not part of the sources at hand), "getOrRegister(key, factory) -> Metric":
  a request for a key that is present returns the existing metric, whatever its type;
  otherwise the metric made by the factory is registered and returned.\<close>
definition GetOrRegister :: "registry \<Rightarrow> string \<Rightarrow> metric \<Rightarrow> metric \<times> registry" where
  "GetOrRegister r name new =
     (case map_of r name of
        Some m \<Rightarrow> (m, r)
      | None \<Rightarrow> (new, r @ [(name, new)]))"

text \<open>What an accessor hands to the producer: the no-op \<open>DudStat{}\<close>, or the wrapper
  that sits in the registry under the given key.\<close>
datatype stat = DudStat | CounterAt string | TimerAt string | GaugeAt string

fun isInfluxDBCounter :: "metric \<Rightarrow> bool" where
  "isInfluxDBCounter (InfluxDBCounter n) = True"
| "isInfluxDBCounter m = False"

fun isInfluxDBTimer :: "metric \<Rightarrow> bool" where
  "isInfluxDBTimer (InfluxDBTimer xs) = True"
| "isInfluxDBTimer m = False"

fun isInfluxDBGauge :: "metric \<Rightarrow> bool" where
  "isInfluxDBGauge (InfluxDBGauge n) = True"
| "isInfluxDBGauge m = False"

text \<open>\<open>i.registry.GetOrRegister(encodedName, func() ...).(influxDBCounter)\<close>: the type
  assertion has no second result and panics on any other type.\<close>
definition registerCounter :: "InfluxDB \<Rightarrow> string \<Rightarrow> panic + (stat \<times> InfluxDB)" where
  "registerCounter i encodedName =
     (let (m, r) = GetOrRegister (registry i) encodedName (InfluxDBCounter 0)
      in if isInfluxDBCounter m then Inr (CounterAt encodedName, i\<lparr>registry := r\<rparr>)
         else Inl (TypeAssertion encodedName))"

definition registerTimer :: "InfluxDB \<Rightarrow> string \<Rightarrow> panic + (stat \<times> InfluxDB)" where
  "registerTimer i encodedName =
     (let (m, r) = GetOrRegister (registry i) encodedName (InfluxDBTimer [])
      in if isInfluxDBTimer m then Inr (TimerAt encodedName, i\<lparr>registry := r\<rparr>)
         else Inl (TypeAssertion encodedName))"

definition registerGauge :: "InfluxDB \<Rightarrow> string \<Rightarrow> panic + (stat \<times> InfluxDB)" where
  "registerGauge i encodedName =
     (let (m, r) = GetOrRegister (registry i) encodedName (InfluxDBGauge 0)
      in if isInfluxDBGauge m then Inr (GaugeAt encodedName, i\<lparr>registry := r\<rparr>)
         else Inl (TypeAssertion encodedName))"

definition GetCounter :: "InfluxDB \<Rightarrow> string \<Rightarrow> panic + (stat \<times> InfluxDB)" where
  "GetCounter i path =
     (let (name, labels, values) = toCMName i path
      in if length name = 0 then Inr (DudStat, i)
         else registerCounter i (encodeInfluxDBName name labels values))"

text \<open>A vector accessor returns a closure over the mapped path; the closure is run
  on the sink as it is when the labels arrive.\<close>
type_synonym statVec = "string list \<Rightarrow> InfluxDB \<Rightarrow> panic + (stat \<times> InfluxDB)"

definition GetCounterVec :: "InfluxDB \<Rightarrow> string \<Rightarrow> string list \<Rightarrow> statVec" where
  "GetCounterVec i path n =
     (let (name, labels0, values) = toCMName i path
      in if length name = 0 then (\<lambda>l j. Inr (DudStat, j))
         else (let labels = labels0 @ n
               in (\<lambda>l j. let v = values @ l
                          in registerCounter j (encodeInfluxDBName path labels v))))"

definition GetTimer :: "InfluxDB \<Rightarrow> string \<Rightarrow> panic + (stat \<times> InfluxDB)" where
  "GetTimer i path =
     (let (name, labels, values) = toCMName i path
      in if length name = 0 then Inr (DudStat, i)
         else registerTimer i (encodeInfluxDBName name labels values))"

definition GetTimerVec :: "InfluxDB \<Rightarrow> string \<Rightarrow> string list \<Rightarrow> statVec" where
  "GetTimerVec i path n =
     (let (name, labels0, values) = toCMName i path
      in if length name = 0 then (\<lambda>l j. Inr (DudStat, j))
         else (let labels = labels0 @ n
               in (\<lambda>l j. let v = values @ l
                          in registerTimer j (encodeInfluxDBName name labels v))))"

definition GetGauge :: "InfluxDB \<Rightarrow> string \<Rightarrow> panic + (stat \<times> InfluxDB)" where
  "GetGauge i path =
     (let (name, labels, values) = toCMName i path
      in if length name = 0 then Inr (DudStat, i)
         else registerGauge i (encodeInfluxDBName name labels values))"

definition GetGaugeVec :: "InfluxDB \<Rightarrow> string \<Rightarrow> string list \<Rightarrow> statVec" where
  "GetGaugeVec i path n =
     (let (name, labels0, values) = toCMName i path
      in if length name = 0 then (\<lambda>l j. Inr (DudStat, j))
         else (let labels = labels0 @ n
               in (\<lambda>l j. let v = values @ l
                          in registerGauge j (encodeInfluxDBName name labels v))))"

text \<open>The calls a producer makes on the object an accessor returned.\<close>
datatype statOp = Incr int | Decr int | Set int | Timing int

text \<open>Modelled from the spec: the methods of the metric objects handed out, which are
  defined outside the sources at hand. \<open>DudStat\<close> is the "no-op metric that silently
  discards writes"; "a Counter holds a monotonically-adjustable integer total", "a Gauge
  holds a single current value", a Timer holds the values recorded.\<close>
fun applyOp :: "statOp \<Rightarrow> metric \<Rightarrow> metric" where
  "applyOp (Incr n) (InfluxDBCounter c) = InfluxDBCounter (c + n)"
| "applyOp (Decr n) (InfluxDBCounter c) = InfluxDBCounter (c - n)"
| "applyOp (Incr n) (InfluxDBGauge g) = InfluxDBGauge (g + n)"
| "applyOp (Decr n) (InfluxDBGauge g) = InfluxDBGauge (g - n)"
| "applyOp (Set n) (InfluxDBGauge g) = InfluxDBGauge n"
| "applyOp (Timing n) (InfluxDBTimer xs) = InfluxDBTimer (xs @ [n])"
| "applyOp opn m = m"

fun statKey :: "stat \<Rightarrow> string option" where
  "statKey DudStat = None"
| "statKey (CounterAt k) = Some k"
| "statKey (TimerAt k) = Some k"
| "statKey (GaugeAt k) = Some k"

definition record_value :: "stat \<Rightarrow> statOp \<Rightarrow> InfluxDB \<Rightarrow> InfluxDB" where
  "record_value st opn i =
     (case statKey st of
        None \<Rightarrow> i
      | Some k \<Rightarrow> i\<lparr>registry := map (\<lambda>(k', m). if k' = k then (k', applyOp opn m) else (k', m))
                                   (registry i)\<rparr>)"

section \<open>What a flush is expected to write\<close>

text \<open>The point the spec describes for one entry of the metric map: named by the
  decoded name, tagged by the decoded tags with the global tags laid over them,
  carrying the fields of the snapshot and the time of the flush.\<close>
definition pointOf :: "env \<Rightarrow> InfluxDB \<Rightarrow> string \<times> fields \<Rightarrow> point" where
  "pointOf x i kv =
     Point (fst (decodeInfluxDBName (fst kv)))
       (snd (decodeInfluxDBName (fst kv)) ++ Tags (config i)) (snd kv) (now x)"

text \<open>The formatting error of an entry, if its snapshot cannot be converted to a
  point.\<close>
definition formatError :: "env \<Rightarrow> InfluxDB \<Rightarrow> string \<times> fields \<Rightarrow> err option" where
  "formatError x i kv =
     newPoint x (pointName (pointOf x i kv)) (pointTags (pointOf x i kv)) (snd kv) (now x)"

definition converts :: "env \<Rightarrow> InfluxDB \<Rightarrow> string \<times> fields \<Rightarrow> bool" where
  "converts x i kv = (formatError x i kv = None)"

text \<open>What is logged for an entry: nothing, or its formatting error.\<close>
definition skipLog :: "env \<Rightarrow> InfluxDB \<Rightarrow> string \<times> fields \<Rightarrow> logEntry list" where
  "skipLog x i kv =
     (case formatError x i kv of
        None \<Rightarrow> []
      | Some e \<Rightarrow> [Debugf (''problem formatting metrics on '' @ pointName (pointOf x i kv)
                     @ '': '' @ e)])"

text \<open>The entries of the merged metric map in the order in which \<open>getAllMetrics\<close>
  assigns them: the entries of the registry under their keys, then the entries of the
  runtime registry under their names after the tag-free path mapping.\<close>
definition mergedEntries :: "InfluxDB \<Rightarrow> (string \<times> fields) list" where
  "mergedEntries i =
     map (\<lambda>(name, m). (name, getMetricValues m)) (registry i) @
     map (\<lambda>(name, m). (mapPathNoTags (pathMapping i) name, getMetricValues m))
       (runtimeRegistry i)"

text \<open>The batches among the calls on the wire.\<close>
fun written :: "call list \<Rightarrow> point list list" where
  "written [] = []"
| "written (Write c b ps # cs) = ps # written cs"
| "written (Ping c d # cs) = written cs"
| "written (CloseClient c # cs) = written cs"

text \<open>One flush of a sink, seen from the wire: for each batch it wrote, the names of
  the points.\<close>
definition flushedNames :: "env \<Rightarrow> InfluxDB \<Rightarrow> string list list" where
  "flushedNames x i =
     (case publishRegistry x i of
        Inl p \<Rightarrow> []
      | Inr (r, i') \<Rightarrow> map (map pointName) (written (wire i')))"

text \<open>A URL scheme for which \<open>makeClient\<close> has no transport.\<close>
definition unsupportedScheme :: "string \<Rightarrow> bool" where
  "unsupportedScheme sch = (sch \<noteq> ''https'' \<and> sch \<noteq> ''http'' \<and> sch \<noteq> ''udp'')"

section \<open>A concrete sink\<close>

text \<open>A path mapping, a configuration, a running sink and a world, for the closed
  statements below: the path \<open>blocked\<close> is mapped to the empty name, \<open>foo.bar\<close> to the
  name \<open>baz\<close> with the tag \<open>zone=b\<close>, any other path to itself; the configuration has
  the global tag \<open>zone=a\<close>.\<close>

definition demoMapping :: pathMapping where
  "demoMapping =
     \<lparr>mapPathWithTags = (\<lambda>p. if p = ''blocked'' then ([], [], [])
                              else if p = ''foo.bar'' then (''baz'', [''zone''], [''b''])
                              else (p, [], [])),
      mapPathNoTags = (\<lambda>p. ''mem'')\<rparr>"

definition demoConfig :: InfluxDBConfig where
  "demoConfig =
     \<lparr>URL = ''https://db:8086'', DB = ''db0'',
      TLS = \<lparr>Enabled = False, tlsSettings = []\<rparr>,
      Interval = ''1m'', Password = ''pw'', PingInterval = ''20s'', Precision = ''s'',
      Timeout = ''5s'', Username = ''user'', RetentionPolicy = [], WriteConsistency = [],
      Include = \<lparr>Runtime = [], DebugGC = []\<rparr>, PathMapping = [],
      Tags = [''zone'' \<mapsto> ''a'']\<rparr>"

definition demoClient :: client where
  "demoClient = HTTPClient ''https://db:8086'' (Some (TLSConfig [])) ''user'' ''pw''"

definition demoSink :: InfluxDB where
  "demoSink =
     \<lparr>client = Some demoClient, batchConfig = BatchPointsConfig ''s'' ''db0'' [] [],
      interval = 60, pingInterval = 20, timeout = 5, ctxDone = False,
      pathMapping = demoMapping, registry = [], runtimeRegistry = [], config = demoConfig,
      logged = [], wire = [], flushes = 0\<rparr>"

definition demoEnv :: env where
  "demoEnv =
     \<lparr>parseDuration = (\<lambda>s. if s = ''1m'' then Inr 60 else if s = ''20s'' then Inr 20
                            else if s = ''5s'' then Inr 5 else Inl ''invalid duration''),
      newPathMapping = (\<lambda>s. Inr demoMapping),
      registerRuntimeMemStats = (\<lambda>r. r),
      registerDebugGCStats = (\<lambda>r. r),
      urlParse = (\<lambda>s. if s = ''https://db:8086''
                         then Inr \<lparr>Scheme = ''https'', Host = ''db:8086'', urlString = s\<rparr>
                       else if s = ''http://db:8086''
                         then Inr \<lparr>Scheme = ''http'', Host = ''db:8086'', urlString = s\<rparr>
                       else if s = ''udp://db:8089''
                         then Inr \<lparr>Scheme = ''udp'', Host = ''db:8089'', urlString = s\<rparr>
                       else if s = ''ftp://db''
                         then Inr \<lparr>Scheme = ''ftp'', Host = ''db'', urlString = s\<rparr>
                       else Inl ''invalid url''),
      tlsGet = (\<lambda>t. Inr (TLSConfig (tlsSettings t))),
      newHTTPClient = (\<lambda>c. None),
      newUDPClient = (\<lambda>c. None),
      newBatchPoints = (\<lambda>b. None),
      newPoint = (\<lambda>n t f tm. if f = [] then Some ''no fields'' else None),
      clientWrite = (\<lambda>c b ps. None),
      clientPing = (\<lambda>c d. None),
      now = 7\<rparr>"

text \<open>The running sink with one counter of value 5 whose key carries the tag
  \<open>zone=b\<close>; and with two gauges in the runtime registry, which the tag-free mapping
  sends to the one name \<open>mem\<close>.\<close>
definition counterSink :: InfluxDB where
  "counterSink = demoSink\<lparr>registry := [(''requests,zone=b'', InfluxDBCounter 5)]\<rparr>"

definition gaugesSink :: InfluxDB where
  "gaugesSink = demoSink\<lparr>runtimeRegistry := [(''runtime.a'', Gauge 1), (''runtime.b'', Gauge 2)]\<rparr>"

text \<open>Worlds in which something fails: every write; every ping together with the
  rebuilding of the client.\<close>
definition writeFails :: env where
  "writeFails = demoEnv\<lparr>clientWrite := (\<lambda>c b ps. Some ''timeout'')\<rparr>"

definition pingFails :: env where
  "pingFails = demoEnv\<lparr>clientPing := (\<lambda>c d. Some ''down''),
                        newHTTPClient := (\<lambda>c. Some ''refused'')\<rparr>"


text \<open>A world whose client library checks what the real one checks: a batch needs a
  precision that is empty or a unit of \<open>time.ParseDuration\<close>, a point needs a field and
  a name within the maximal key length of 65535 bytes.\<close>
definition checkedEnv :: env where
  "checkedEnv =
     demoEnv\<lparr>newBatchPoints :=
               (\<lambda>b. case b of BatchPointsConfig precision db rp wc \<Rightarrow>
                      if precision \<in> set [[], ''ns'', ''us'', ''ms'', ''s'', ''m'', ''h'']
                      then None else Some ''time: unknown unit in duration''),
             newPoint :=
               (\<lambda>n t f tm. if f = [] then Some ''point without fields is unsupported''
                            else if 65535 < length n then Some ''max key length exceeded''
                            else None)\<rparr>"

text \<open>A name of 65536 bytes.\<close>
definition longName :: string where
  "longName = replicate 65536 (CHR ''a'')"


definition bothSink :: InfluxDB where
  "bothSink = counterSink\<lparr>runtimeRegistry := [(''runtime.a'', Gauge 1), (''runtime.b'', Gauge 2)]\<rparr>"

definition longSink :: InfluxDB where
  "longSink = demoSink\<lparr>registry := [(longName, InfluxDBCounter 5)]\<rparr>"

definition precisionSink :: InfluxDB where
  "precisionSink = counterSink\<lparr>batchConfig := BatchPointsConfig ''xyz'' ''db0'' [] [],
                               config := demoConfig\<lparr>Precision := ''xyz''\<rparr>\<rparr>"

text \<open>The clients pinged among the calls on the wire.\<close>
fun pinged :: "call list \<Rightarrow> client list" where
  "pinged [] = []"
| "pinged (Ping c d # cs) = c # pinged cs"
| "pinged (Write c b ps # cs) = pinged cs"
| "pinged (CloseClient c # cs) = pinged cs"

text \<open>The registry of the sink holds under a key, if anything, a metric of the given
  type.\<close>
definition holdsOnly :: "InfluxDB \<Rightarrow> string \<Rightarrow> (metric \<Rightarrow> bool) \<Rightarrow> bool" where
  "holdsOnly i key isT = (case map_of (registry i) key of None \<Rightarrow> True | Some m \<Rightarrow> isT m)"

section \<open>Properties of the codec\<close>

lemma splitOn_not_Nil: "splitOn c s \<noteq> []"
  by (induction s) (auto split: list.splits)

lemma splitOn_append_pieces:
  "c \<notin> set a \<Longrightarrow> splitOn c (a @ rest) =
     (case splitOn c rest of [] \<Rightarrow> [a] | y # ys \<Rightarrow> (a @ y) # ys)"
  by (induction a) (auto split: list.splits simp: splitOn_not_Nil)

lemma splitOn_tags:
  assumes "\<forall>kv \<in> set kvs. tagSep \<notin> set (fst kv) \<and> tagSep \<notin> set (snd kv)"
  shows "splitOn tagSep (concat (map encodeTag kvs)) =
           [] # map (\<lambda>kv. fst kv @ kvSep # snd kv) kvs"
  using assms
proof (induction kvs)
  case Nil
  then show ?case by simp
next
  case (Cons kv kvs)
  have sep: "tagSep \<noteq> kvSep"
    by (simp add: tagSep_def kvSep_def)
  from Cons.prems have free: "tagSep \<notin> set (fst kv @ kvSep # snd kv)"
    using sep by auto
  from Cons have IH: "splitOn tagSep (concat (map encodeTag kvs)) =
      [] # map (\<lambda>kv. fst kv @ kvSep # snd kv) kvs"
    by simp
  have "splitOn tagSep (concat (map encodeTag (kv # kvs))) =
      [] # splitOn tagSep ((fst kv @ kvSep # snd kv) @ concat (map encodeTag kvs))"
    by (simp add: encodeTag_def)
  also have "splitOn tagSep ((fst kv @ kvSep # snd kv) @ concat (map encodeTag kvs)) =
      (fst kv @ kvSep # snd kv) # map (\<lambda>kv. fst kv @ kvSep # snd kv) kvs"
    using splitOn_append_pieces [OF free, of "concat (map encodeTag kvs)"] IH by simp
  finally show ?case by simp
qed

lemma decodeTag_encoded:
  "kvSep \<notin> set k \<Longrightarrow> decodeTag (k @ kvSep # v) = Some (k, v)"
  by (induction k) (auto simp: decodeTag_def)

lemma foldl_addTag:
  assumes "\<forall>kv \<in> set kvs. kvSep \<notin> set (fst kv)"
  shows "foldl addTag m (map (\<lambda>kv. fst kv @ kvSep # snd kv) kvs) = m ++ map_of (rev kvs)"
  using assms
proof (induction kvs arbitrary: m)
  case Nil
  then show ?case by simp
next
  case (Cons kv kvs)
  then have "addTag m (fst kv @ kvSep # snd kv) = m(fst kv \<mapsto> snd kv)"
    by (cases kv) (simp add: addTag_def decodeTag_encoded)
  with Cons show ?case
    by (simp add: map_add_upd_left)
qed

text \<open>
  C9. For every name and every two sequences \<open>tagKeys\<close>, \<open>tagValues\<close> of equal length
  whose contents are free of the delimiter characters of the codec, decoding the
  encoded key gives back the name, and the tag map that pairs \<open>tagKeys\<close> with
  \<open>tagValues\<close>, the last pair winning where a key occurs twice.
\<close>
theorem decode_encode_roundtrip:
  assumes "length tagKeys = length tagValues"
    and "delimiterFree name"
    and "\<forall>k \<in> set tagKeys. delimiterFree k"
    and "\<forall>v \<in> set tagValues. delimiterFree v"
  shows "decodeInfluxDBName (encodeInfluxDBName name tagKeys tagValues) =
           (name, map_of (rev (zip tagKeys tagValues)))"
proof -
  let ?kvs = "zip tagKeys tagValues"
  have free: "\<forall>kv \<in> set ?kvs. tagSep \<notin> set (fst kv) \<and> tagSep \<notin> set (snd kv)"
    using assms(3,4) by (auto simp: delimiterFree_def dest: set_zip_leftD set_zip_rightD)
  have keys: "\<forall>kv \<in> set ?kvs. kvSep \<notin> set (fst kv)"
    using assms(3) by (auto simp: delimiterFree_def dest: set_zip_leftD)
  have "splitOn tagSep (encodeInfluxDBName name tagKeys tagValues) =
      name # map (\<lambda>kv. fst kv @ kvSep # snd kv) ?kvs"
    using assms(2) splitOn_tags [OF free]
    by (simp add: encodeInfluxDBName_def delimiterFree_def splitOn_append_pieces)
  then show ?thesis
    using foldl_addTag [OF keys, of Map.empty]
    by (simp add: decodeInfluxDBName_def)
qed

theorem decode_encode_roundtrip_witness:
  "decodeInfluxDBName (encodeInfluxDBName ''requests'' [''zone'', ''host'', ''zone'']
       [''a'', ''h1'', ''b'']) =
     (''requests'', map_of [(''zone'', ''b''), (''host'', ''h1''), (''zone'', ''a'')])"
  using decode_encode_roundtrip [of "[''zone'', ''host'', ''zone'']" "[''a'', ''h1'', ''b'']"
      "''requests''"]
  by (simp add: delimiterFree_def tagSep_def kvSep_def)

section \<open>Properties of the sink\<close>

subsection \<open>Auxiliary facts\<close>

lemma makeClient_fail_unchanged: "makeClient x i = (Some e, i') \<Longrightarrow> i' = i"
  by (auto simp: makeClient_def assignClient_def Let_def split: sum.splits if_splits option.splits)

lemma makeClient_ok_client: "makeClient x i = (None, i') \<Longrightarrow> \<exists>c. i' = i\<lparr>client := Some c\<rparr>"
  by (auto simp: makeClient_def assignClient_def Let_def split: sum.splits if_splits option.splits)

lemma publishRegistry_client:
  "publishRegistry x i = Inr (r, i') \<Longrightarrow> client i' = client i \<and> ctxDone i' = ctxDone i \<and> flushes i' = Suc (flushes i)
    \<and> interval i' = interval i \<and> pingInterval i' = pingInterval i"
  by (auto simp: publishRegistry_def Let_def split: option.splits)

lemma publishRegistry_total:
  "client i = Some c \<Longrightarrow> \<exists>r i'. publishRegistry x i = Inr (r, i')"
  by (auto simp: publishRegistry_def Let_def split: option.splits)

lemma logFlush_fields [simp]:
  "client (logFlush r i) = client i" "ctxDone (logFlush r i) = ctxDone i"
  "flushes (logFlush r i) = flushes i" "wire (logFlush r i) = wire i"
  by (auto simp: logFlush_def split: option.splits)

lemma onTicker_ok:
  "client i = Some c \<Longrightarrow> \<exists>i'. onTicker x i = Inr i' \<and> client i' = Some c \<and> ctxDone i' = ctxDone i"
proof -
  assume c: "client i = Some c"
  from publishRegistry_total [OF c, of x] obtain r i1 where
    p: "publishRegistry x i = Inr (r, i1)" by blast
  from publishRegistry_client [OF p] c show ?thesis
    by (simp add: onTicker_def p)
qed

lemma onPingTicker_ok:
  "client i = Some c \<Longrightarrow> \<exists>i' c'. onPingTicker x i = Inr i' \<and> client i' = Some c' \<and> ctxDone i' = ctxDone i"
  by (auto simp: onPingTicker_def Let_def split: option.splits prod.splits
      dest!: makeClient_fail_unchanged makeClient_ok_client)

lemma loopSelect_waits:
  "client i = Some c \<Longrightarrow> \<not> ctxDone i \<Longrightarrow>
     \<exists>i' c'. loopSelect schedule i = Inr (False, i') \<and> client i' = Some c' \<and> \<not> ctxDone i'"
proof (induction schedule i arbitrary: c rule: loopSelect.induct)
  case (1 i)
  then show ?case by simp
next
  case (2 x rest i)
  then show ?case by simp
next
  case (3 x rest i)
  from onTicker_ok [OF "3.prems"(1), of x] obtain i1 where
    "onTicker x i = Inr i1" "client i1 = Some c" "ctxDone i1 = ctxDone i" by blast
  with 3 show ?case by simp
next
  case (4 x rest i)
  from onPingTicker_ok [OF "4.prems"(1), of x] obtain i1 c1 where
    "onPingTicker x i = Inr i1" "client i1 = Some c1" "ctxDone i1 = ctxDone i" by blast
  with 4 show ?case by simp
qed

lemma record_value_Dud: "record_value DudStat opn i = i"
  by (simp add: record_value_def)

lemma fold_record_Dud: "fold (record_value DudStat) ops i = i"
  by (induction ops) (simp_all add: record_value_Dud)

lemma registerCounter_total:
  "(\<exists>st i'. registerCounter i k = Inr (st, i')) = holdsOnly i k isInfluxDBCounter"
  by (auto simp: registerCounter_def GetOrRegister_def holdsOnly_def split: option.splits)

lemma registerTimer_total:
  "(\<exists>st i'. registerTimer i k = Inr (st, i')) = holdsOnly i k isInfluxDBTimer"
  by (auto simp: registerTimer_def GetOrRegister_def holdsOnly_def split: option.splits)

lemma registerGauge_total:
  "(\<exists>st i'. registerGauge i k = Inr (st, i')) = holdsOnly i k isInfluxDBGauge"
  by (auto simp: registerGauge_def GetOrRegister_def holdsOnly_def split: option.splits)

lemma makePoint_cases:
  "makePoint x i kv =
     (case formatError x i kv of
        None \<Rightarrow> Inr (pointOf x i kv)
      | Some e \<Rightarrow> Inl (Debugf (''problem formatting metrics on '' @ pointName (pointOf x i kv)
                          @ '': '' @ e)))"
proof -
  obtain name normalTags where d: "decodeInfluxDBName (fst kv) = (name, normalTags)"
    by (cases "decodeInfluxDBName (fst kv)") auto
  show ?thesis
    by (cases "newPoint x name (normalTags ++ Tags (config i)) (snd kv) (now x)")
      (simp_all add: makePoint_def formatError_def pointOf_def d)
qed

lemma made_points:
  "added (map (makePoint x i) kvs) = map (pointOf x i) (filter (converts x i) kvs)"
  by (induction kvs) (auto simp: makePoint_cases converts_def split: option.splits)

lemma made_logs:
  "skipped (map (makePoint x i) kvs) = concat (map (skipLog x i) kvs)"
  by (induction kvs) (auto simp: makePoint_cases skipLog_def split: option.splits)

lemma flushes_frame [simp]:
  "getAllMetrics (i\<lparr>flushes := n\<rparr>) = getAllMetrics i"
  "makePoint x (i\<lparr>flushes := n\<rparr>) = makePoint x i"
  by (simp_all add: getAllMetrics_def makePoint_def fun_eq_iff)

lemma publishRegistry_ok:
  assumes "client i = Some c" and "newBatchPoints x (batchConfig i) = None"
  shows "publishRegistry x i =
     Inr (clientWrite x c (batchConfig i) (map (pointOf x i) (filter (converts x i) (getAllMetrics i))),
          i\<lparr>flushes := Suc (flushes i),
            logged := logged i @ concat (map (skipLog x i) (getAllMetrics i)),
            wire := wire i @ [Write c (batchConfig i)
                      (map (pointOf x i) (filter (converts x i) (getAllMetrics i)))]\<rparr>)"
  using assms by (simp add: publishRegistry_def Let_def made_points made_logs)

lemma publishRegistry_batch_fail:
  assumes "newBatchPoints x (batchConfig i) = Some e"
  shows "publishRegistry x i =
     Inr (Some (''problem creating batch points for influx: '' @ e), i\<lparr>flushes := Suc (flushes i)\<rparr>)"
  using assms by (simp add: publishRegistry_def Let_def)

lemma distinct_foldl_update:
  "distinct (map fst d) \<Longrightarrow>
     distinct (map fst (foldl (\<lambda>d (name, m). AList.update (f name) (g m) d) d r))"
  by (induction r arbitrary: d) (auto simp: distinct_update)

lemma distinct_getAllMetrics: "distinct (map fst (getAllMetrics i))"
proof -
  have "distinct (map fst (foldl (\<lambda>d (name, m). AList.update ((\<lambda>n. n) name) (getMetricValues m) d) []
                   (registry i)))"
    by (rule distinct_foldl_update) simp
  then show ?thesis
    unfolding getAllMetrics_def Let_def
    by (simp add: distinct_foldl_update)
qed

lemma publishRegistry_wire:
  assumes "client i = Some c"
  shows "\<exists>r i1. publishRegistry x i = Inr (r, i1) \<and> flushes i1 = Suc (flushes i)
           \<and> client i1 = Some c
           \<and> (wire i1 = wire i \<or> (\<exists>ps. wire i1 = wire i @ [Write c (batchConfig i) ps]))"
proof (cases "newBatchPoints x (batchConfig i)")
  case None
  from publishRegistry_ok [OF assms None] assms show ?thesis by simp
next
  case (Some e)
  from publishRegistry_batch_fail [OF Some] assms show ?thesis by simp
qed

lemma Close_keeps_context: "Close x i = Inr (r, i') \<Longrightarrow> ctxDone i' = ctxDone i"
  by (auto simp: Close_def Let_def split: sum.splits option.splits prod.splits
      dest: publishRegistry_client)

lemma loop_waits_forever:
  assumes "client i = Some c" and "\<not> ctxDone i"
  shows "loop schedule i \<noteq> Inr (True, i')"
  using loopSelect_waits [OF assms, of schedule] by (auto simp: loop_def)

lemma makeClient_frame:
  "makeClient x (i\<lparr>logged := l\<rparr>) = (fst (makeClient x i), (snd (makeClient x i))\<lparr>logged := l\<rparr>)"
  "makeClient x (i\<lparr>wire := w\<rparr>) = (fst (makeClient x i), (snd (makeClient x i))\<lparr>wire := w\<rparr>)"
  by (auto simp: makeClient_def assignClient_def Let_def split: sum.splits option.splits)

lemma makeClient_fail_eq:
  assumes "fst (makeClient x i) = Some e"
  shows "makeClient x i = (Some e, i)"
proof -
  obtain i' where "makeClient x i = (Some e, i')"
    using assms by (cases "makeClient x i") auto
  with makeClient_fail_unchanged [OF this] show ?thesis by simp
qed

lemma makeClient_unsupported:
  assumes "urlParse x (URL (config i)) = Inr u" and "unsupportedScheme (Scheme u)"
  shows "makeClient x i =
           (Some (''protocol needs to be http, https or udp and is '' @ Scheme u), i)"
  using assms by (simp add: makeClient_def unsupportedScheme_def)

lemma NewInfluxDB_needs_client:
  assumes "\<And>i. config i = conf \<Longrightarrow> fst (makeClient x i) \<noteq> None"
  shows "\<exists>e. NewInfluxDB x conf = Inl e"
proof -
  have "\<exists>e. (case makeClient x i of (Some e, _) \<Rightarrow> Inl e | (None, j) \<Rightarrow> Inr (f j)) = Inl e"
    if "config i = conf" for i and f :: "InfluxDB \<Rightarrow> InfluxDB"
    using assms [OF that] by (cases "makeClient x i") (auto split: option.splits)
  then show ?thesis
    unfolding NewInfluxDB_def
    by (auto split: sum.splits simp del: not_None_eq)
qed

lemma flushedNames_ok:
  assumes "client i = Some c" and "newBatchPoints x (batchConfig i) = None"
  shows "flushedNames x i = map (map pointName) (written (wire i)) @
           [map (\<lambda>kv. fst (decodeInfluxDBName (fst kv))) (filter (converts x i) (getAllMetrics i))]"
proof -
  have w: "written (ws @ [Write c b ps]) = written ws @ [ps]" for ws b ps
    by (induction ws rule: written.induct) simp_all
  have "pointName (pointOf x i kv) = fst (decodeInfluxDBName (fst kv))" for kv
    by (simp add: pointOf_def)
  then show ?thesis
    using publishRegistry_ok [OF assms] by (simp add: flushedNames_def w comp_def)
qed

lemma decode_plain [simp]:
  "decodeInfluxDBName ''good'' = (''good'', Map.empty)"
  "decodeInfluxDBName ''mem'' = (''mem'', Map.empty)"
  "decodeInfluxDBName ''requests,zone=b'' = (''requests'', [''zone'' \<mapsto> ''b''])"
  by (simp_all add: decodeInfluxDBName_def tagSep_def addTag_def decodeTag_def kvSep_def)

lemma update_fresh: "k \<notin> fst ` set al \<Longrightarrow> AList.update k v al = al @ [(k, v)]"
  by (induction al) auto

lemma foldl_update_distinct:
  "distinct (map fst r) \<Longrightarrow> fst ` set d \<inter> fst ` set r = {} \<Longrightarrow>
     foldl (\<lambda>d (name, m). AList.update name (g m) d) d r = d @ map (\<lambda>(name, m). (name, g m)) r"
proof (induction r arbitrary: d)
  case Nil
  then show ?case by simp
next
  case (Cons p r)
  obtain name m where p: "p = (name, m)" by (cases p)
  from Cons.prems p have fresh: "name \<notin> fst ` set d" by auto
  from Cons.prems p have "distinct (map fst r)"
    and "fst ` set (d @ [(name, m')]) \<inter> fst ` set r = {}" for m'
    by (auto simp: image_iff)
  from Cons.IH [OF this] show ?case
    by (simp add: p update_fresh [OF fresh])
qed

lemma getAllMetrics_registry:
  assumes "distinct (map fst (registry i))" and "runtimeRegistry i = []"
  shows "getAllMetrics i = map (\<lambda>(name, m). (name, getMetricValues m)) (registry i)"
  using foldl_update_distinct [OF assms(1), of "[]" getMetricValues] assms(2)
  by (simp add: getAllMetrics_def)

lemma pinged_append [simp]: "pinged (ws @ vs) = pinged ws @ pinged vs"
  by (induction ws rule: pinged.induct) simp_all









lemma splitOn_free: "c \<notin> set s \<Longrightarrow> splitOn c s = [s]"
  by (induction s) auto

lemma longName_facts:
  "length longName = 65536" "decodeInfluxDBName longName = (longName, Map.empty)"
  "longName \<noteq> ''good''"
proof -
  show l: "length longName = 65536"
    by (simp add: longName_def)
  have "tagSep \<notin> set longName"
    by (simp add: longName_def tagSep_def)
  then show "decodeInfluxDBName longName = (longName, Map.empty)"
    by (simp add: decodeInfluxDBName_def splitOn_free)
  show "longName \<noteq> ''good''"
  proof
    assume "longName = ''good''"
    then have "length longName = length ''good''" by (rule arg_cong)
    with l show False by simp
  qed
qed

lemma map_of_foldl_update:
  "map_of (foldl (\<lambda>d (name, m). AList.update (f name) (g m) d) d r) =
     map_of d ++ map_of (rev (map (\<lambda>(name, m). (f name, g m)) r))"
proof (induction r arbitrary: d)
  case Nil
  then show ?case by simp
next
  case (Cons p r)
  obtain name m where p: "p = (name, m)" by (cases p)
  have "map_of (AList.update (f name) (g m) d) ++ map_of (rev (map (\<lambda>(name, m). (f name, g m)) r)) =
      map_of d ++ (map_of (rev (map (\<lambda>(name, m). (f name, g m)) r)) ++ [f name \<mapsto> g m] ++
        map_of (rev (map (\<lambda>(name, m). (f name, g m)) r)))"
    by (auto simp: update_conv' map_add_def fun_eq_iff split: option.splits)
  then show ?case
    by (simp add: Cons.IH p) (auto simp: map_add_def fun_eq_iff split: option.splits)
qed

lemma map_of_getAllMetrics: "map_of (getAllMetrics i) = map_of (rev (mergedEntries i))"
proof -
  have "map_of (foldl (\<lambda>d (name, m). AList.update ((\<lambda>n. n) name) (getMetricValues m) d) []
                   (registry i)) =
      map_of (rev (map (\<lambda>(name, m). (name, getMetricValues m)) (registry i)))"
    by (simp only: map_of_foldl_update) simp
  then show ?thesis
    by (simp add: getAllMetrics_def mergedEntries_def map_of_foldl_update)
qed

lemma names_getAllMetrics:
  "fst ` set (getAllMetrics i) =
     fst ` set (registry i) \<union> (\<lambda>e. mapPathNoTags (pathMapping i) (fst e)) ` set (runtimeRegistry i)"
proof -
  have "fst ` set (getAllMetrics i) = dom (map_of (getAllMetrics i))"
    by (simp add: dom_map_of_conv_image_fst)
  also have "\<dots> = fst ` set (mergedEntries i)"
    by (simp add: map_of_getAllMetrics dom_map_of_conv_image_fst)
  also have "\<dots> = fst ` set (registry i) \<union>
      (\<lambda>e. mapPathNoTags (pathMapping i) (fst e)) ` set (runtimeRegistry i)"
    by (force simp: mergedEntries_def image_iff)
  finally show ?thesis .
qed

subsection \<open>Vector accessors and the registry key\<close>

text \<open>
  C1. A vector accessor registers its metric under the key that encodes the mapped
  backend name with the mapped tags extended by the labels. Evaluated on the path
  \<open>foo.bar\<close>, which the mapping renames to \<open>baz\<close>: \<open>GetTimerVec\<close> and \<open>GetGaugeVec\<close>
  register under a key built from \<open>baz\<close>, \<open>GetCounterVec\<close> under a key built from the
  raw path \<open>foo.bar\<close>.
\<close>
theorem GetCounterVec_raw_path:
  "GetCounterVec demoSink ''foo.bar'' [''l''] [''v''] demoSink =
     Inr (CounterAt ''foo.bar,zone=b,l=v'',
          demoSink\<lparr>registry := [(''foo.bar,zone=b,l=v'', InfluxDBCounter 0)]\<rparr>)
   \<and> encodeInfluxDBName ''baz'' [''zone'', ''l''] [''b'', ''v''] = ''baz,zone=b,l=v''
   \<and> GetTimerVec demoSink ''foo.bar'' [''l''] [''v''] demoSink =
     Inr (TimerAt ''baz,zone=b,l=v'',
          demoSink\<lparr>registry := [(''baz,zone=b,l=v'', InfluxDBTimer [])]\<rparr>)
   \<and> GetGaugeVec demoSink ''foo.bar'' [''l''] [''v''] demoSink =
     Inr (GaugeAt ''baz,zone=b,l=v'',
          demoSink\<lparr>registry := [(''baz,zone=b,l=v'', InfluxDBGauge 0)]\<rparr>)"
  by (simp add: GetCounterVec_def GetTimerVec_def GetGaugeVec_def toCMName_def demoSink_def
      demoMapping_def registerCounter_def registerTimer_def registerGauge_def
      GetOrRegister_def encodeInfluxDBName_def encodeTag_def tagSep_def kvSep_def Let_def)

subsection \<open>Shutdown\<close>

text \<open>
  C2. \<open>Close\<close> is to make the background loop leave its \<open>select\<close>. Evaluated on a
  running sink: \<open>Close\<close> returns \<open>nil\<close> and leaves the context as it was, not
  cancelled; the loop that is then offered the case \<open><-i.ctx.Done()\<close>, a tick and the
  case \<open><-i.ctx.Done()\<close> again has not returned, and has written one more batch through
  the client that \<open>Close\<close> closed.
\<close>
theorem Close_leaves_loop_running:
  "(case Close demoEnv demoSink of
      Inl p \<Rightarrow> False
    | Inr (r, i') \<Rightarrow>
        r = None \<and> \<not> ctxDone i' \<and>
        (case loop [(CtxDone, demoEnv), (TickerC, demoEnv), (CtxDone, demoEnv)] i' of
           Inl p \<Rightarrow> False
         | Inr (returned, i'') \<Rightarrow>
             \<not> returned \<and>
             wire i'' = [Write demoClient (batchConfig demoSink) [], CloseClient demoClient,
                         Write demoClient (batchConfig demoSink) []]))"
proof -
  have h: "client demoSink = Some demoClient"
    by (simp add: demoSink_def)
  have n: "newBatchPoints demoEnv b = None" for b
    by (simp add: demoEnv_def)
  have w: "clientWrite demoEnv c b ps = None" for c b ps
    by (simp add: demoEnv_def)
  have g: "getAllMetrics demoSink = []"
    by (simp add: getAllMetrics_def demoSink_def)
  define i1 where "i1 = demoSink\<lparr>flushes := 1,
      wire := [Write demoClient (batchConfig demoSink) [], CloseClient demoClient]\<rparr>"
  have c: "Close demoEnv demoSink = Inr (None, i1)"
    using publishRegistry_ok [OF h n] g
    by (simp add: Close_def w logFlush_def i1_def demoSink_def)
  have h1: "client i1 = Some demoClient" and g1: "getAllMetrics i1 = []"
    and b1: "batchConfig i1 = batchConfig demoSink" and d1: "\<not> ctxDone i1"
    and t1: "0 < interval i1" "0 < pingInterval i1"
    by (simp_all add: i1_def demoSink_def getAllMetrics_def)
  have "loop [(CtxDone, demoEnv), (TickerC, demoEnv), (CtxDone, demoEnv)] i1 =
      Inr (False, i1\<lparr>flushes := 2, wire := wire i1 @ [Write demoClient (batchConfig demoSink) []]\<rparr>)"
    using publishRegistry_ok [OF h1 n] g1 b1 d1 t1
    by (simp add: loop_def onTicker_def w logFlush_def) (simp add: i1_def)
  with c d1 show ?thesis
    by (simp add: i1_def)
qed

text \<open>
  C3. On a sink that has its client, \<open>Close\<close> enters \<open>publishRegistry\<close> exactly once
  (at most one batch goes to the wire); if that flush returned an error, \<open>Close\<close> logs
  it and does not return it; \<open>Close\<close> then closes the client and returns \<open>nil\<close>,
  whatever the flush returned.
\<close>
theorem Close_flushes_once:
  assumes "client i = Some c"
  shows "\<exists>r i1 i'. publishRegistry x i = Inr (r, i1)
           \<and> Close x i = Inr (None, i')
           \<and> flushes i' = Suc (flushes i)
           \<and> logged i' = logged i1 @
                (case r of None \<Rightarrow> []
                 | Some e \<Rightarrow> [Errorf (''failed to send metrics data: '' @ e)])
           \<and> wire i' = wire i1 @ [CloseClient c]
           \<and> (wire i1 = wire i \<or> (\<exists>ps. wire i1 = wire i @ [Write c (batchConfig i) ps]))"
proof -
  from publishRegistry_wire [OF assms, of x] obtain r i1 where
    p: "publishRegistry x i = Inr (r, i1)" and f: "flushes i1 = Suc (flushes i)"
    and c: "client i1 = Some c"
    and w: "wire i1 = wire i \<or> (\<exists>ps. wire i1 = wire i @ [Write c (batchConfig i) ps])"
    by blast
  have "Close x i = Inr (None, (logFlush r i1)\<lparr>wire := wire i1 @ [CloseClient c]\<rparr>)"
    by (simp add: Close_def p c Let_def)
  moreover have "logged (logFlush r i1) = logged i1 @
      (case r of None \<Rightarrow> [] | Some e \<Rightarrow> [Errorf (''failed to send metrics data: '' @ e)])"
    by (simp add: logFlush_def split: option.splits)
  ultimately show ?thesis
    using p f w by simp
qed

theorem Close_flushes_once_witness:
  "client demoSink = Some demoClient
   \<and> (\<exists>i'. Close writeFails demoSink = Inr (None, i')
          \<and> flushes i' = 1
          \<and> logged i' = [Errorf ''failed to send metrics data: timeout'']
          \<and> wire i' = [Write demoClient (batchConfig demoSink) [], CloseClient demoClient])"
proof -
  have h: "client demoSink = Some demoClient"
    by (simp add: demoSink_def)
  have n: "newBatchPoints writeFails (batchConfig demoSink) = None"
    by (simp add: writeFails_def demoEnv_def)
  have g: "getAllMetrics demoSink = []"
    by (simp add: getAllMetrics_def demoSink_def)
  have p: "publishRegistry writeFails demoSink =
      Inr (Some ''timeout'', demoSink\<lparr>flushes := 1,
             wire := [Write demoClient (batchConfig demoSink) []]\<rparr>)"
    using publishRegistry_ok [OF h n] g by (simp add: demoSink_def writeFails_def)
  from Close_flushes_once [OF h, of writeFails] p h show ?thesis
    by (auto simp: demoSink_def)
qed

subsection \<open>Blocked paths\<close>

text \<open>
  C4. When the path mapping returns the empty name for a path, every accessor and
  every vector accessor, for every label combination, returns the no-op metric and
  leaves the sink as it is; values recorded on the no-op metric leave the sink as it
  is, so no registry entry is added and every later flush is the flush of the
  untouched sink.
\<close>
theorem blocked_path_noop:
  assumes "fst (toCMName i path) = []"
  shows "GetCounter i path = Inr (DudStat, i)
       \<and> GetTimer i path = Inr (DudStat, i)
       \<and> GetGauge i path = Inr (DudStat, i)
       \<and> GetCounterVec i path n l j = Inr (DudStat, j)
       \<and> GetTimerVec i path n l j = Inr (DudStat, j)
       \<and> GetGaugeVec i path n l j = Inr (DudStat, j)
       \<and> fold (record_value DudStat) ops j = j
       \<and> publishRegistry x (fold (record_value DudStat) ops j) = publishRegistry x j"
proof -
  obtain name labels vals where t: "toCMName i path = (name, labels, vals)"
    by (cases "toCMName i path") auto
  with assms have "name = []" by simp
  with t show ?thesis
    by (simp add: GetCounter_def GetTimer_def GetGauge_def GetCounterVec_def GetTimerVec_def
        GetGaugeVec_def fold_record_Dud)
qed

theorem blocked_path_noop_witness:
  "fst (toCMName demoSink ''blocked'') = []
   \<and> GetCounter demoSink ''blocked'' = Inr (DudStat, demoSink)
   \<and> GetCounterVec demoSink ''blocked'' [''l''] [''v''] demoSink = Inr (DudStat, demoSink)
   \<and> registry (fold (record_value DudStat) [Incr 3, Decr 1] demoSink) = []"
proof -
  have h: "fst (toCMName demoSink ''blocked'') = []"
    by (simp add: toCMName_def demoSink_def demoMapping_def)
  have r: "registry demoSink = []"
    by (simp add: demoSink_def)
  from blocked_path_noop [OF h, of "[''l'']" "[''v'']" demoSink "[Incr 3, Decr 1]" demoEnv] h r
  show ?thesis by simp
qed

subsection \<open>The points of a flush\<close>

text \<open>
  C5, as amended. On a flush whose batch can be made, the batch written holds, for
  every name of the merged metric map whose snapshot can be converted, exactly one
  point. The names of the map are distinct; they are the keys of the registry together
  with the names of the runtime registry after the tag-free path mapping, and a name
  assigned more than once keeps the entry assigned last (with an empty runtime
  registry the map is the registry, entry by entry). The point carries the decoded
  name, the fields of the snapshot, and the decoded tags merged with the global tags,
  a global tag value replacing a decoded tag of the same name.
\<close>
theorem flush_one_point_per_name:
  assumes "client i = Some c" and "newBatchPoints x (batchConfig i) = None"
  shows "(\<exists>r i'. publishRegistry x i = Inr (r, i')
            \<and> wire i' = wire i @ [Write c (batchConfig i)
                 (map (pointOf x i) (filter (converts x i) (getAllMetrics i)))])
       \<and> distinct (map fst (getAllMetrics i))
       \<and> fst ` set (getAllMetrics i) =
           fst ` set (registry i) \<union>
           (\<lambda>e. mapPathNoTags (pathMapping i) (fst e)) ` set (runtimeRegistry i)
       \<and> map_of (getAllMetrics i) = map_of (rev (mergedEntries i))
       \<and> (distinct (map fst (registry i)) \<longrightarrow> runtimeRegistry i = [] \<longrightarrow>
            getAllMetrics i = map (\<lambda>(name, m). (name, getMetricValues m)) (registry i))
       \<and> pointName (pointOf x i kv) = fst (decodeInfluxDBName (fst kv))
       \<and> pointFields (pointOf x i kv) = snd kv
       \<and> pointTags (pointOf x i kv) t =
           (case Tags (config i) t of
              Some g \<Rightarrow> Some g
            | None \<Rightarrow> snd (decodeInfluxDBName (fst kv)) t)"
proof -
  have "pointTags (pointOf x i kv) t =
      (case Tags (config i) t of Some g \<Rightarrow> Some g | None \<Rightarrow> snd (decodeInfluxDBName (fst kv)) t)"
    by (simp add: pointOf_def map_add_def split: option.splits)
  moreover have "pointName (pointOf x i kv) = fst (decodeInfluxDBName (fst kv))"
    "pointFields (pointOf x i kv) = snd kv"
    by (simp_all add: pointOf_def)
  ultimately show ?thesis
    using publishRegistry_ok [OF assms] distinct_getAllMetrics [of i]
      getAllMetrics_registry [of i] names_getAllMetrics [of i] map_of_getAllMetrics [of i]
    by simp
qed

theorem flush_one_point_per_name_witness:
  "client bothSink = Some demoClient
   \<and> newBatchPoints checkedEnv (batchConfig bothSink) = None
   \<and> length (registry bothSink) = 1 \<and> length (runtimeRegistry bothSink) = 2
   \<and> fst ` set (getAllMetrics bothSink) = {''requests,zone=b'', ''mem''}
   \<and> map_of (getAllMetrics bothSink) ''mem'' = Some [(''value'', Int64 2)]
   \<and> (\<exists>r i'. publishRegistry checkedEnv bothSink = Inr (r, i')
          \<and> wire i' = [Write demoClient (batchConfig bothSink)
               [pointOf checkedEnv bothSink (''requests,zone=b'', [(''count'', Int64 5)]),
                pointOf checkedEnv bothSink (''mem'', [(''value'', Int64 2)])]])
   \<and> pointName (pointOf checkedEnv bothSink (''requests,zone=b'', [(''count'', Int64 5)])) =
       ''requests''
   \<and> pointFields (pointOf checkedEnv bothSink (''requests,zone=b'', [(''count'', Int64 5)])) =
       [(''count'', Int64 5)]
   \<and> pointTags (pointOf checkedEnv bothSink (''requests,zone=b'', [(''count'', Int64 5)]))
        ''zone'' = Some ''a''
   \<and> snd (decodeInfluxDBName ''requests,zone=b'') ''zone'' = Some ''b''"
proof -
  have h: "client bothSink = Some demoClient"
    by (simp add: bothSink_def counterSink_def demoSink_def)
  have n: "newBatchPoints checkedEnv (batchConfig bothSink) = None"
    by (simp add: checkedEnv_def bothSink_def counterSink_def demoSink_def)
  have d: "registry bothSink = [(''requests,zone=b'', InfluxDBCounter 5)]"
    "runtimeRegistry bothSink = [(''runtime.a'', Gauge 1), (''runtime.b'', Gauge 2)]"
    "mapPathNoTags (pathMapping bothSink) = (\<lambda>p. ''mem'')"
    "wire bothSink = []" "Tags (config bothSink) ''zone'' = Some ''a''"
    by (simp_all add: bothSink_def counterSink_def demoSink_def demoConfig_def demoMapping_def)
  have m: "mergedEntries bothSink =
      [(''requests,zone=b'', [(''count'', Int64 5)]), (''mem'', [(''value'', Int64 1)]),
       (''mem'', [(''value'', Int64 2)])]"
    by (simp add: mergedEntries_def d)
  have g: "getAllMetrics bothSink =
      [(''requests,zone=b'', [(''count'', Int64 5)]), (''mem'', [(''value'', Int64 2)])]"
    by (simp add: getAllMetrics_def d)
  have c: "converts checkedEnv bothSink (''requests,zone=b'', [(''count'', Int64 5)])"
    "converts checkedEnv bothSink (''mem'', [(''value'', Int64 2)])"
    by (simp_all add: converts_def formatError_def pointOf_def checkedEnv_def)
  from flush_one_point_per_name [OF h n,
      of "(''requests,zone=b'', [(''count'', Int64 5)])" "''zone''"]
  show ?thesis
    using h n d c m by (simp add: g)
qed

text \<open>
  C5, as stated, fails: two entries of the runtime registry that the tag-free mapping
  sends to one name yield one point; a registry entry whose name exceeds the maximal
  key length, so that its point cannot be formatted, yields none; and with a precision
  that is no unit the batch cannot be made and the flush writes nothing.
\<close>
theorem flush_fewer_points:
  "length (runtimeRegistry gaugesSink) = 2
   \<and> flushedNames checkedEnv gaugesSink = [[''mem'']]
   \<and> length (registry longSink) = 1
   \<and> flushedNames checkedEnv longSink = [[]]
   \<and> length (registry precisionSink) = 1
   \<and> flushedNames checkedEnv precisionSink = []"
proof -
  have h: "client gaugesSink = Some demoClient" "client longSink = Some demoClient"
    by (simp_all add: gaugesSink_def longSink_def demoSink_def)
  have n: "newBatchPoints checkedEnv (batchConfig gaugesSink) = None"
    "newBatchPoints checkedEnv (batchConfig longSink) = None"
    "newBatchPoints checkedEnv (batchConfig precisionSink) =
       Some ''time: unknown unit in duration''"
    by (simp_all add: checkedEnv_def gaugesSink_def longSink_def precisionSink_def
        demoSink_def)
  have g: "getAllMetrics gaugesSink = [(''mem'', [(''value'', Int64 2)])]"
    "getAllMetrics longSink = [(longName, [(''count'', Int64 5)])]"
    by (simp_all add: getAllMetrics_def gaugesSink_def longSink_def demoSink_def
        demoMapping_def)
  have c: "converts checkedEnv gaugesSink (''mem'', [(''value'', Int64 2)])"
    "\<not> converts checkedEnv longSink (longName, [(''count'', Int64 5)])"
    by (simp_all add: converts_def formatError_def pointOf_def checkedEnv_def longName_facts)
  have w: "wire gaugesSink = []" "wire longSink = []" "wire precisionSink = []"
    by (simp_all add: gaugesSink_def longSink_def precisionSink_def counterSink_def
        demoSink_def)
  have "flushedNames checkedEnv gaugesSink = [[''mem'']]"
    using flushedNames_ok [OF h(1) n(1)] g c w by simp
  moreover have "flushedNames checkedEnv longSink = [[]]"
    using flushedNames_ok [OF h(2) n(2)] g c w by simp
  moreover have "flushedNames checkedEnv precisionSink = []"
    using publishRegistry_batch_fail [OF n(3)] w by (simp add: flushedNames_def)
  ultimately show ?thesis
    by (simp add: gaugesSink_def longSink_def precisionSink_def counterSink_def)
qed

subsection \<open>Choosing the transport\<close>

text \<open>
  C6. For a configured URL that parses, \<open>makeClient\<close> goes by the scheme: \<open>https\<close>
  builds an HTTP client with a TLS configuration, \<open>http\<close> an HTTP client without one,
  \<open>udp\<close> a UDP client for the host (each assigned when its constructor succeeds); for
  every other scheme \<open>makeClient\<close> returns an error and leaves the sink as it is, and
  \<open>NewInfluxDB\<close> fails.
\<close>
theorem makeClient_by_scheme:
  assumes "urlParse x (URL (config i)) = Inr u"
  shows "(Scheme u = ''https'' \<longrightarrow>
            (if Enabled (TLS (config i)) then tlsGet x (TLS (config i))
             else Inr (TLSConfig [])) = Inr t \<longrightarrow>
            newHTTPClient x (HTTPClient (urlString u) (Some t) (Username (config i))
              (Password (config i))) = None \<longrightarrow>
            makeClient x i =
              (None, i\<lparr>client := Some (HTTPClient (urlString u) (Some t) (Username (config i))
                                        (Password (config i)))\<rparr>))
       \<and> (Scheme u = ''http'' \<longrightarrow>
            newHTTPClient x (HTTPClient (urlString u) None (Username (config i))
              (Password (config i))) = None \<longrightarrow>
            makeClient x i =
              (None, i\<lparr>client := Some (HTTPClient (urlString u) None (Username (config i))
                                        (Password (config i)))\<rparr>))
       \<and> (Scheme u = ''udp'' \<longrightarrow>
            newUDPClient x (UDPClient (Host u)) = None \<longrightarrow>
            makeClient x i = (None, i\<lparr>client := Some (UDPClient (Host u))\<rparr>))
       \<and> (unsupportedScheme (Scheme u) \<longrightarrow>
            makeClient x i =
              (Some (''protocol needs to be http, https or udp and is '' @ Scheme u), i)
            \<and> (\<exists>e. NewInfluxDB x (config i) = Inl e))"
proof -
  have "\<exists>e. NewInfluxDB x (config i) = Inl e" if b: "unsupportedScheme (Scheme u)"
  proof (rule NewInfluxDB_needs_client)
    fix j :: InfluxDB
    assume "config j = config i"
    with assms have "urlParse x (URL (config j)) = Inr u" by simp
    from makeClient_unsupported [OF this b] show "fst (makeClient x j) \<noteq> None" by simp
  qed
  moreover have "makeClient x i =
      (Some (''protocol needs to be http, https or udp and is '' @ Scheme u), i)"
    if "unsupportedScheme (Scheme u)"
    using makeClient_unsupported [OF assms that] .
  ultimately show ?thesis
    using assms by (auto simp: makeClient_def assignClient_def Let_def)
qed

theorem makeClient_by_scheme_witness:
  "makeClient demoEnv demoSink = (None, demoSink)
   \<and> makeClient demoEnv (demoSink\<lparr>config := demoConfig\<lparr>URL := ''http://db:8086''\<rparr>\<rparr>) =
       (None, demoSink\<lparr>config := demoConfig\<lparr>URL := ''http://db:8086''\<rparr>,
                        client := Some (HTTPClient ''http://db:8086'' None ''user'' ''pw'')\<rparr>)
   \<and> makeClient demoEnv (demoSink\<lparr>config := demoConfig\<lparr>URL := ''udp://db:8089''\<rparr>\<rparr>) =
       (None, demoSink\<lparr>config := demoConfig\<lparr>URL := ''udp://db:8089''\<rparr>,
                        client := Some (UDPClient ''db:8089'')\<rparr>)
   \<and> unsupportedScheme ''ftp''
   \<and> makeClient demoEnv (demoSink\<lparr>config := demoConfig\<lparr>URL := ''ftp://db''\<rparr>\<rparr>) =
       (Some ''protocol needs to be http, https or udp and is ftp'',
        demoSink\<lparr>config := demoConfig\<lparr>URL := ''ftp://db''\<rparr>\<rparr>)
   \<and> (\<exists>e. NewInfluxDB demoEnv (demoConfig\<lparr>URL := ''ftp://db''\<rparr>) = Inl e)"
proof -
  have u1: "urlParse demoEnv (URL (config demoSink)) =
      Inr \<lparr>Scheme = ''https'', Host = ''db:8086'', urlString = ''https://db:8086''\<rparr>"
    by (simp add: demoEnv_def demoSink_def demoConfig_def)
  have u2: "urlParse demoEnv (URL (config (demoSink\<lparr>config := demoConfig\<lparr>URL := ''http://db:8086''\<rparr>\<rparr>))) =
      Inr \<lparr>Scheme = ''http'', Host = ''db:8086'', urlString = ''http://db:8086''\<rparr>"
    by (simp add: demoEnv_def)
  have u3: "urlParse demoEnv (URL (config (demoSink\<lparr>config := demoConfig\<lparr>URL := ''udp://db:8089''\<rparr>\<rparr>))) =
      Inr \<lparr>Scheme = ''udp'', Host = ''db:8089'', urlString = ''udp://db:8089''\<rparr>"
    by (simp add: demoEnv_def)
  have u4: "urlParse demoEnv (URL (config (demoSink\<lparr>config := demoConfig\<lparr>URL := ''ftp://db''\<rparr>\<rparr>))) =
      Inr \<lparr>Scheme = ''ftp'', Host = ''db'', urlString = ''ftp://db''\<rparr>"
    by (simp add: demoEnv_def)
  have e: "newHTTPClient demoEnv c = None" "newUDPClient demoEnv c = None" for c
    by (simp_all add: demoEnv_def)
  have c: "Username demoConfig = ''user''" "Password demoConfig = ''pw''"
    "\<not> Enabled (TLS demoConfig)"
    by (simp_all add: demoConfig_def)
  have s: "demoSink\<lparr>client := Some (HTTPClient ''https://db:8086'' (Some (TLSConfig []))
      ''user'' ''pw'')\<rparr> = demoSink"
    by (simp add: demoSink_def demoClient_def)
  have f: "unsupportedScheme ''ftp''"
    by (simp add: unsupportedScheme_def)
  from makeClient_by_scheme [OF u1, of "TLSConfig []"]
    makeClient_by_scheme [OF u2, of "TLSConfig []"]
    makeClient_by_scheme [OF u3, of "TLSConfig []"]
    makeClient_by_scheme [OF u4, of "TLSConfig []"]
  show ?thesis
    using e c s f by (simp add: demoSink_def)
qed

subsection \<open>Failures while publishing\<close>



text \<open>
  C10. When, after a failed ping, building the client fails as well, \<open>makeClient\<close>
  returns the sink unchanged, the loop logs both failures and keeps the client it had,
  and the flush of the next tick, when it comes to its write, writes through that
  client.
\<close>
theorem failed_rebuild_keeps_client:
  assumes "client i = Some c"
    and "clientPing x c (timeout i) = Some e"
    and "fst (makeClient x i) = Some e'"
  shows "makeClient x i = (Some e', i)
       \<and> onPingTicker x i =
           Inr (i\<lparr>wire := wire i @ [Ping c (timeout i)],
                  logged := logged i @ [Warnf (''unable to ping influx endpoint: '' @ e),
                                        Errorf (''unable to recreate client: '' @ e')]\<rparr>)
       \<and> (\<exists>i2. loopSelect [(PingTickerC, x), (TickerC, y)] i = Inr (False, i2)
              \<and> client i2 = Some c
              \<and> (newBatchPoints y (batchConfig i) = None \<longrightarrow>
                   (\<exists>ps. wire i2 = wire i @ [Ping c (timeout i), Write c (batchConfig i) ps])))"
proof -
  define i1 where "i1 = i\<lparr>wire := wire i @ [Ping c (timeout i)],
      logged := logged i @ [Warnf (''unable to ping influx endpoint: '' @ e),
                            Errorf (''unable to recreate client: '' @ e')]\<rparr>"
  have m: "makeClient x i = (Some e', i)"
    by (rule makeClient_fail_eq [OF assms(3)])
  have p: "onPingTicker x i = Inr i1"
    using assms(1,2) by (simp add: onPingTicker_def Let_def makeClient_frame m i1_def)
  have c1: "client i1 = Some c" and b1: "batchConfig i1 = batchConfig i"
    and w1: "wire i1 = wire i @ [Ping c (timeout i)]"
    using assms(1) by (simp_all add: i1_def)
  from publishRegistry_wire [OF c1, of y] obtain r i2 where
    f: "publishRegistry y i1 = Inr (r, i2)" and c2: "client i2 = Some c"
    by blast
  have t: "loopSelect [(PingTickerC, x), (TickerC, y)] i = Inr (False, logFlush r i2)"
    by (simp add: p onTicker_def f)
  have "\<exists>ps. wire (logFlush r i2) = wire i @ [Ping c (timeout i), Write c (batchConfig i) ps]"
    if n: "newBatchPoints y (batchConfig i) = None"
  proof -
    have n1: "newBatchPoints y (batchConfig i1) = None"
      using n b1 by simp
    from publishRegistry_ok [OF c1 n1] f b1 w1 show ?thesis
      by auto
  qed
  with m p t c2 show ?thesis
    by (simp add: i1_def)
qed

theorem failed_rebuild_keeps_client_witness:
  "client demoSink = Some demoClient
   \<and> clientPing pingFails
        demoClient (timeout demoSink) = Some ''down''
   \<and> makeClient pingFails demoSink =
        (Some ''refused'', demoSink)
   \<and> (\<exists>i2. loopSelect [(PingTickerC, pingFails), (TickerC, demoEnv)]
              demoSink = Inr (False, i2)
          \<and> client i2 = Some demoClient
          \<and> (\<exists>ps. wire i2 = [Ping demoClient 5, Write demoClient (batchConfig demoSink) ps]))"
proof -
  have h: "client demoSink = Some demoClient"
    by (simp add: demoSink_def)
  have pg: "clientPing pingFails demoClient (timeout demoSink) = Some ''down''"
    by (simp add: pingFails_def)
  have mk: "fst (makeClient pingFails demoSink) = Some ''refused''"
    by (simp add: makeClient_def assignClient_def demoSink_def demoConfig_def demoEnv_def
        pingFails_def)
  have n: "newBatchPoints demoEnv (batchConfig demoSink) = None"
    by (simp add: demoEnv_def)
  have w: "wire demoSink = []" and t: "timeout demoSink = 5"
    by (simp_all add: demoSink_def)
  from failed_rebuild_keeps_client [OF h pg mk, of demoEnv] h pg n w t show ?thesis
    by auto
qed

subsection \<open>Accessors and metrics of another type\<close>

text \<open>
  C8, as amended. For every path and every label combination an accessor returns a
  metric and does not panic exactly when the mapped name is empty or the registry
  holds nothing, or a metric of the accessor's own type, under the encoded key.
\<close>
theorem accessors_total_unless_other_type:
  assumes "toCMName i path = (name, labels, values)"
  shows "((\<exists>st i'. GetCounter i path = Inr (st, i')) \<longleftrightarrow>
            name = [] \<or> holdsOnly i (encodeInfluxDBName name labels values) isInfluxDBCounter)
       \<and> ((\<exists>st i'. GetTimer i path = Inr (st, i')) \<longleftrightarrow>
            name = [] \<or> holdsOnly i (encodeInfluxDBName name labels values) isInfluxDBTimer)
       \<and> ((\<exists>st i'. GetGauge i path = Inr (st, i')) \<longleftrightarrow>
            name = [] \<or> holdsOnly i (encodeInfluxDBName name labels values) isInfluxDBGauge)
       \<and> ((\<exists>st j'. GetCounterVec i path n l j = Inr (st, j')) \<longleftrightarrow>
            name = [] \<or> holdsOnly j (encodeInfluxDBName path (labels @ n) (values @ l))
                          isInfluxDBCounter)
       \<and> ((\<exists>st j'. GetTimerVec i path n l j = Inr (st, j')) \<longleftrightarrow>
            name = [] \<or> holdsOnly j (encodeInfluxDBName name (labels @ n) (values @ l))
                          isInfluxDBTimer)
       \<and> ((\<exists>st j'. GetGaugeVec i path n l j = Inr (st, j')) \<longleftrightarrow>
            name = [] \<or> holdsOnly j (encodeInfluxDBName name (labels @ n) (values @ l))
                          isInfluxDBGauge)"
  using assms
  by (simp add: GetCounter_def GetTimer_def GetGauge_def GetCounterVec_def GetTimerVec_def
      GetGaugeVec_def Let_def registerCounter_total registerTimer_total registerGauge_total)

theorem accessors_total_witness:
  "toCMName demoSink ''requests'' = (''requests'', [], [])
   \<and> (\<exists>st i'. GetCounter demoSink ''requests'' = Inr (st, i'))
   \<and> (\<exists>st i'. GetTimerVec demoSink ''requests'' [''l''] [''v''] demoSink = Inr (st, i'))"
proof -
  have h: "toCMName demoSink ''requests'' = (''requests'', [], [])"
    by (simp add: toCMName_def demoSink_def demoMapping_def)
  have k: "holdsOnly demoSink key isT" for key isT
    by (simp add: holdsOnly_def demoSink_def)
  from accessors_total_unless_other_type [OF h, of "[''l'']" "[''v'']" demoSink] h k
  show ?thesis by simp
qed

text \<open>
  C8, as stated, fails: after \<open>GetCounter\<close> has registered a counter for a path,
  \<open>GetTimer\<close> for the same path finds the counter under the same key and its type
  assertion panics.
\<close>
theorem accessor_type_clash:
  "GetCounter demoSink ''requests'' =
     Inr (CounterAt ''requests'', demoSink\<lparr>registry := [(''requests'', InfluxDBCounter 0)]\<rparr>)
   \<and> GetTimer (demoSink\<lparr>registry := [(''requests'', InfluxDBCounter 0)]\<rparr>) ''requests'' =
     Inl (TypeAssertion ''requests'')"
  by (simp add: GetCounter_def GetTimer_def toCMName_def demoSink_def demoMapping_def
      registerCounter_def registerTimer_def GetOrRegister_def encodeInfluxDBName_def Let_def)

end
